theory Spec2Isabelle
  imports Complex_Main "HOL-Library.AList"
begin

section \<open>Exceptions\<close>

text \<open>
  Every exception the modelled code can raise is a value of \<open>error\<close>; a function that
  may raise returns \<open>error + 'a\<close> with \<open>Inl\<close> for the exception.
\<close>

datatype error =
    InvalidParameterSpecification
  | InvalidScatterer
  | ZeroDivisionError
  | TypeError
  | ValueError
  | KeyError
  | IndexError
  | UnboundLocalError

section \<open>Numbers\<close>

text \<open>
  A Python \<open>float\<close> and a NumPy \<open>float64\<close> are IEEE 754 binary64 values: a finite value
  (\<open>Fin\<close>, a real number), an infinity or \<open>nan\<close>. Every arithmetic operation on finite
  values rounds its exact result once, to the nearest binary64 value and to the even one
  of two nearest (\<open>binary64\<close> below); a result too large becomes an infinity and one too
  small a subnormal value or zero. The sign of zero is not modelled. A number also carries
  whether it is a plain Python scalar (\<open>Py\<close>) or a NumPy scalar or array element
  (\<open>Np\<close>): Python raises \<open>ZeroDivisionError\<close> when both operands of \<open>/\<close> are Python
  scalars and the divisor is zero, while any NumPy operand makes the quotient \<open>inf\<close> or
  \<open>nan\<close> without an exception.
\<close>

datatype fl = Fin real | PInf | NInf | NaN

text \<open>The integer nearest to \<open>x\<close>, the even one when \<open>x\<close> lies halfway between two.\<close>

definition round_half_even :: "real \<Rightarrow> int" where
  "round_half_even x =
     (let f = \<lfloor>x\<rfloor>; d = x - of_int f
      in if d < 1 / 2 then f else if 1 / 2 < d then f + 1 else if even f then f else f + 1)"

text \<open>
  The binary64 exponent of \<open>y\<close>: the largest \<open>e\<close> with \<open>2 ^ e \<le> |y|\<close>, kept between
  \<open>-1022\<close> (below it the values are subnormal) and 1023 (the largest exponent).
\<close>

definition exponent :: "real \<Rightarrow> int" where
  "exponent y = Max (insert (- 1022) {k \<in> {- 1022 .. 1023}. 2 powi k \<le> \<bar>y\<bar>})"

text \<open>
  Rounding of an exact result to binary64: 53 significant bits, so the spacing of the
  values around \<open>y\<close> is \<open>2 ^ (e - 52)\<close> for the exponent \<open>e\<close> of \<open>y\<close>; a rounded
  magnitude of \<open>2 ^ 1024\<close> or more overflows to an infinity.
\<close>

definition binary64 :: "real \<Rightarrow> fl" where
  "binary64 y =
     (if y = 0 then Fin 0
      else let e = exponent y;
               ulp = 2 powi (e - 52);
               r = of_int (round_half_even (y / ulp)) * ulp
           in if 2 ^ 1024 \<le> \<bar>r\<bar> then (if 0 < y then PInf else NInf) else Fin r)"

datatype number = Py fl | Np fl

fun fval :: "number \<Rightarrow> fl" where
  "fval (Py a) = a"
| "fval (Np a) = a"

fun fl_mul :: "fl \<Rightarrow> fl \<Rightarrow> fl" where
  "fl_mul NaN _ = NaN"
| "fl_mul _ NaN = NaN"
| "fl_mul (Fin a) (Fin b) = binary64 (a * b)"
| "fl_mul (Fin a) PInf = (if 0 < a then PInf else if a < 0 then NInf else NaN)"
| "fl_mul (Fin a) NInf = (if 0 < a then NInf else if a < 0 then PInf else NaN)"
| "fl_mul PInf (Fin b) = (if 0 < b then PInf else if b < 0 then NInf else NaN)"
| "fl_mul NInf (Fin b) = (if 0 < b then NInf else if b < 0 then PInf else NaN)"
| "fl_mul PInf PInf = PInf"
| "fl_mul PInf NInf = NInf"
| "fl_mul NInf PInf = NInf"
| "fl_mul NInf NInf = PInf"

fun fl_div :: "fl \<Rightarrow> fl \<Rightarrow> fl" where
  "fl_div NaN _ = NaN"
| "fl_div _ NaN = NaN"
| "fl_div (Fin a) (Fin b) =
     (if b \<noteq> 0 then binary64 (a / b)
      else if 0 < a then PInf else if a < 0 then NInf else NaN)"
| "fl_div (Fin a) PInf = Fin 0"
| "fl_div (Fin a) NInf = Fin 0"
| "fl_div PInf (Fin b) = (if 0 \<le> b then PInf else NInf)"
| "fl_div NInf (Fin b) = (if 0 \<le> b then NInf else PInf)"
| "fl_div PInf PInf = NaN"
| "fl_div PInf NInf = NaN"
| "fl_div NInf PInf = NaN"
| "fl_div NInf NInf = NaN"

fun fl_sqrt :: "fl \<Rightarrow> fl" where
  "fl_sqrt (Fin a) = (if 0 \<le> a then binary64 (sqrt a) else NaN)"
| "fl_sqrt PInf = PInf"
| "fl_sqrt NInf = NaN"
| "fl_sqrt NaN = NaN"

text \<open>\<open>x * y\<close>: never raises on numbers; the product is a NumPy value as soon as one factor is.\<close>

fun num_mul :: "number \<Rightarrow> number \<Rightarrow> number" where
  "num_mul (Py a) (Py b) = Py (fl_mul a b)"
| "num_mul x y = Np (fl_mul (fval x) (fval y))"

text \<open>\<open>x / y\<close> under \<open>from __future__ import division\<close>.\<close>

fun num_truediv :: "number \<Rightarrow> number \<Rightarrow> error + number" where
  "num_truediv (Py a) (Py b) =
     (if b = Fin 0 then Inl ZeroDivisionError else Inr (Py (fl_div a b)))"
| "num_truediv x y = Inr (Np (fl_div (fval x) (fval y)))"

text \<open>\<open>np.sqrt(x)\<close>: always a NumPy scalar, \<open>nan\<close> on a negative argument.\<close>

definition np_sqrt :: "number \<Rightarrow> number" where
  "np_sqrt x = Np (fl_sqrt (fval x))"

text \<open>Python's \<open>==\<close> on numbers: by value, whatever the carrier, and \<open>nan\<close> equals nothing.\<close>

fun fl_eq :: "fl \<Rightarrow> fl \<Rightarrow> bool" where
  "fl_eq (Fin a) (Fin b) = (a = b)"
| "fl_eq PInf PInf = True"
| "fl_eq NInf NInf = True"
| "fl_eq _ _ = False"

definition num_eq :: "number \<Rightarrow> number \<Rightarrow> bool" where
  "num_eq x y = fl_eq (fval x) (fval y)"

section \<open>Parameter (analyze/fit\_new.py)\<close>

text \<open>
  A limit is a pair whose sides may each be \<open>None\<close>. The scale factor is the guess when
  there is one, else \<open>np.sqrt(limit[0]*limit[1])\<close>; multiplying by \<open>None\<close> raises
  \<open>TypeError\<close>.
\<close>

record parameter =
  name :: string
  guess :: "number option"
  limit :: "(number option \<times> number option) option"
  misc :: "string option"
  scale_factor :: number

definition Parameter ::
  "string \<Rightarrow> number option \<Rightarrow> (number option \<times> number option) option \<Rightarrow> string option
    \<Rightarrow> error + parameter" where
  "Parameter nm g l m =
     (case g of
        Some gv \<Rightarrow>
          Inr \<lparr>name = nm, guess = g, limit = l, misc = m, scale_factor = gv\<rparr>
      | None \<Rightarrow>
          (case l of
             Some (Some lo, Some hi) \<Rightarrow>
               Inr \<lparr>name = nm, guess = g, limit = l, misc = m,
                    scale_factor = np_sqrt (num_mul lo hi)\<rparr>
           | Some _ \<Rightarrow> Inl TypeError
           | None \<Rightarrow> Inl InvalidParameterSpecification))"

definition scale :: "parameter \<Rightarrow> number \<Rightarrow> error + number" where
  "scale p physical = num_truediv physical (scale_factor p)"

definition unscale :: "parameter \<Rightarrow> number \<Rightarrow> number" where
  "unscale p scaled = num_mul scaled (scale_factor p)"

text \<open>
  \<open>scale\<close> applied to \<open>np.array(xs)\<close>: the same quotient, element by element, with
  NumPy's rule for a zero divisor. An element that is \<open>None\<close> makes it an object array,
  whose division raises \<open>TypeError\<close>.
\<close>

fun scale_array :: "parameter \<Rightarrow> number option list \<Rightarrow> error + number list" where
  "scale_array p [] = Inr []"
| "scale_array p (None # xs) = Inl TypeError"
| "scale_array p (Some x # xs) =
     (case scale_array p xs of
        Inl e \<Rightarrow> Inl e
      | Inr qs \<Rightarrow> Inr (Np (fl_div (fval x) (fval (scale_factor p))) # qs))"

text \<open>The round trip \<open>p.unscale(p.scale(x))\<close>.\<close>

definition unscale_scale :: "parameter \<Rightarrow> number \<Rightarrow> error + number" where
  "unscale_scale p x = (case scale p x of Inl e \<Rightarrow> Inl e | Inr y \<Rightarrow> Inr (unscale p y))"

section \<open>Minimizer (analyze/fit\_new.py)\<close>

text \<open>
  One entry of \<open>nmp_pars\<close>: the dictionary \<open>d\<close> of the loop body. The key \<open>limits\<close>
  is absent when the parameter has no limit; the key \<open>value\<close> is the field \<open>par_value\<close>.
\<close>

record parinfo =
  parname :: string
  limited :: "bool list"
  limits :: "number list option"
  par_value :: number

text \<open>What the solver returns: its status code and the fitted parameter vector.\<close>

record fitresult =
  status :: int
  params :: "number list"

record minimizer =
  algorithm :: string

text \<open>
  \<open>[par.scale(l) is not None for l in par.limit]\<close>: each side is divided by the scale
  factor first, so a side that is \<open>None\<close> raises \<open>TypeError\<close>, and a quotient is never
  \<open>None\<close>.
\<close>

fun limited_flags :: "parameter \<Rightarrow> number option list \<Rightarrow> error + bool list" where
  "limited_flags p [] = Inr []"
| "limited_flags p (None # ls) = Inl TypeError"
| "limited_flags p (Some l # ls) =
     (case scale p l of
        Inl e \<Rightarrow> Inl e
      | Inr q \<Rightarrow> (case limited_flags p ls of Inl e \<Rightarrow> Inl e | Inr bs \<Rightarrow> Inr (True # bs)))"

text \<open>The body of the loop over the parameters: the limit first, the guess after it.\<close>

definition nmp_par :: "parameter \<Rightarrow> error + parinfo" where
  "nmp_par par =
     (case (case limit par of
              Some (lo, hi) \<Rightarrow>
                (case limited_flags par [lo, hi] of
                   Inl e \<Rightarrow> Inl e
                 | Inr bs \<Rightarrow>
                     (case scale_array par [lo, hi] of
                        Inl e \<Rightarrow> Inl e
                      | Inr qs \<Rightarrow> Inr (bs, Some qs)))
            | None \<Rightarrow> Inr ([False, False], None)) of
        Inl e \<Rightarrow> Inl e
      | Inr (bs, lims) \<Rightarrow>
          (case guess par of
             Some g \<Rightarrow>
               (case scale par g of
                  Inl e \<Rightarrow> Inl e
                | Inr v \<Rightarrow>
                    Inr \<lparr>parname = name par, limited = bs, limits = lims, par_value = v\<rparr>)
           | None \<Rightarrow> Inl InvalidParameterSpecification))"

fun nmp_pars :: "parameter list \<Rightarrow> error + parinfo list" where
  "nmp_pars [] = Inr []"
| "nmp_pars (par # ps) =
     (case nmp_par par of
        Inl e \<Rightarrow> Inl e
      | Inr d \<Rightarrow> (case nmp_pars ps of Inl e \<Rightarrow> Inl e | Inr ds \<Rightarrow> Inr (d # ds)))"

text \<open>
  \<open>Minimizer.minimize\<close>. The solver \<open>nmpfit.mpfit\<close> is an external collaborator and a
  parameter of the model; the residual function it is given (\<open>resid_wrapper\<close>, closing over
  the cost function and the selection) is part of it. \<open>resid_wrapper\<close> is bound inside the
  loop, so with no parameter the call of the solver raises \<open>UnboundLocalError\<close>. Another
  algorithm than \<open>nmpfit\<close> falls through and returns \<open>None\<close>.
\<close>

definition minimize ::
  "minimizer \<Rightarrow> (parinfo list \<Rightarrow> fitresult) \<Rightarrow> parameter list
    \<Rightarrow> error + (number list \<times> bool \<times> fitresult) option" where
  "minimize self mpfit parameters =
     (if algorithm self = ''nmpfit'' then
        (case nmp_pars parameters of
           Inl e \<Rightarrow> Inl e
         | Inr ds \<Rightarrow>
             if parameters = [] then Inl UnboundLocalError
             else (let fr = mpfit ds; converged = (status fr < 4)
                   in Inr (Some (params fr, converged, fr))))
      else Inr None)"

text \<open>\<open>Minimizer()\<close>: the constructor called with its default, \<open>algorithm='nmpfit'\<close>.\<close>

definition Minimizer :: minimizer where
  "Minimizer = \<lparr>algorithm = ''nmpfit''\<rparr>"

section \<open>Scatterer geometry (scattering/scatterer/scatterer.py)\<close>

text \<open>
  A point is a row \<open>(x, y, z)\<close> of an \<open>N x 3\<close> array. An indicator function maps an
  array of points to the array of their membership tests; it is modelled by the test on
  one point, applied to every row.
\<close>

type_synonym vec3 = "real \<times> real \<times> real"

record Indicators =
  ind_functions :: "(vec3 \<Rightarrow> bool) list"
  bound :: "(real \<times> real) list"

record Scatterer =
  indicators :: Indicators
  sc_n :: "complex list"
  center :: "real list"

text \<open>\<open>Indicators.__call__\<close>: one array of tests per function.\<close>

definition call_indicators :: "Indicators \<Rightarrow> vec3 list \<Rightarrow> bool list list" where
  "call_indicators inds pts = map (\<lambda>test. map test pts) (ind_functions inds)"

text \<open>
  The argument of \<open>in_domain\<close>: a one-dimensional array (a single point, reshaped to
  \<open>(1, 3)\<close>, which raises \<open>ValueError\<close> unless it has three entries) or the rows of an
  \<open>N x 3\<close> array.
\<close>

datatype points = Point "real list" | Points "vec3 list"

fun as_rows :: "points \<Rightarrow> error + vec3 list" where
  "as_rows (Point [x, y, z]) = Inr [(x, y, z)]"
| "as_rows (Point _) = Inl ValueError"
| "as_rows (Points ps) = Inr ps"

text \<open>
  \<open>points - self.center\<close> with NumPy's broadcasting: a center of three entries is
  subtracted from every row, a center of one entry from every coordinate, and any other
  length raises \<open>ValueError\<close>.
\<close>

fun sub_center :: "vec3 list \<Rightarrow> real list \<Rightarrow> error + vec3 list" where
  "sub_center ps [cx, cy, cz] = Inr (map (\<lambda>(x, y, z). (x - cx, y - cy, z - cz)) ps)"
| "sub_center ps [c] = Inr (map (\<lambda>(x, y, z). (x - c, y - c, z - c)) ps)"
| "sub_center ps _ = Inl ValueError"

text \<open>\<open>domains[np.nonzero(ind)] = v\<close>: the entries where the test holds are overwritten.\<close>

definition assign_where :: "'a list \<Rightarrow> bool list \<Rightarrow> 'a \<Rightarrow> 'a list" where
  "assign_where domains ind v = map2 (\<lambda>d b. if b then v else d) domains ind"

text \<open>
  \<open>Scatterer.in_domain\<close>: the indicators are visited from the last to the first, each
  writing its index plus one where it holds.
\<close>

definition in_domain :: "Scatterer \<Rightarrow> points \<Rightarrow> error + nat list" where
  "in_domain self points =
     (case as_rows points of
        Inl e \<Rightarrow> Inl e
      | Inr ps \<Rightarrow>
          (case sub_center ps (center self) of
             Inl e \<Rightarrow> Inl e
           | Inr qs \<Rightarrow>
               Inr (foldl (\<lambda>domains (i, ind). assign_where domains ind (i + 1))
                      (replicate (length ps) 0)
                      (rev (enumerate 0 (call_indicators (indicators self) qs))))))"

definition contains :: "Scatterer \<Rightarrow> points \<Rightarrow> error + bool list" where
  "contains self points =
     (case in_domain self points of Inl e \<Rightarrow> Inl e | Inr ds \<Rightarrow> Inr (map (\<lambda>d. 0 < d) ds))"

text \<open>
  \<open>Scatterer.index_at\<close>: an array filled with the background, then, for each entry
  \<open>n\<close> of the index list at position \<open>i\<close>, the points of domain \<open>i + 1\<close> are set to
  \<open>n\<close>. Values are complex numbers; the choice between a float and a complex array only
  drops imaginary parts that are zero.
\<close>

definition index_at :: "Scatterer \<Rightarrow> points \<Rightarrow> complex \<Rightarrow> error + complex list" where
  "index_at self points background =
     (case in_domain self points of
        Inl e \<Rightarrow> Inl e
      | Inr domains \<Rightarrow>
          Inr (foldl (\<lambda>index (i, n). assign_where index (map (\<lambda>d. d = i + 1) domains) n)
                 (replicate (length domains) background)
                 (enumerate 0 (sc_n self))))"

text \<open>
  The first argument of \<open>translated\<close> is a scalar or a sequence; the second and third
  are scalars or \<open>None\<close>.
\<close>

datatype coord = Scalar real | Vector "real list"

text \<open>
  Modelled from the spec: \<open>ensure_array\<close> and \<open>is_none\<close> of \<open>core/utils.py\<close> are not among
  the sources. A scatterer's center and translation vector are arrays (3-vectors):
  \<open>ensure_array\<close> gives the array of a sequence's entries and the one-entry array of
  a scalar, and \<open>is_none\<close> tests for \<open>None\<close>.
\<close>

fun ensure_array :: "coord \<Rightarrow> real list" where
  "ensure_array (Scalar x) = [x]"
| "ensure_array (Vector xs) = xs"

definition is_none :: "'a option \<Rightarrow> bool" where
  "is_none x = (x = None)"

text \<open>\<open>a + b\<close> on one-dimensional arrays, with NumPy's broadcasting of a one-entry array.\<close>

definition np_add :: "real list \<Rightarrow> real list \<Rightarrow> error + real list" where
  "np_add a b =
     (if length a = length b then Inr (map2 (+) a b)
      else if length b = 1 then Inr (map (\<lambda>x. x + hd b) a)
      else if length a = 1 then Inr (map (\<lambda>y. hd a + y) b)
      else Inl ValueError)"

text \<open>
  \<open>Scatterer.translated\<close>. The first test is \<open>len(ensure_array(coord1)==3)\<close>: the
  length of the elementwise comparison with 3, which is true for every array that is not
  empty. In the second branch \<open>np.array([coord1, coord2, coord3])\<close> of a sequence and
  two scalars is a ragged array, which NumPy refuses with \<open>ValueError\<close>.
\<close>

definition translated ::
  "Scatterer \<Rightarrow> coord \<Rightarrow> real option \<Rightarrow> real option \<Rightarrow> error + Scatterer" where
  "translated self coord1 coord2 coord3 =
     (case (if is_none coord2 \<and> length (map (\<lambda>x. x = 3) (ensure_array coord1)) \<noteq> 0
            then Inr (ensure_array coord1)
            else if \<not> is_none coord2 \<and> \<not> is_none coord3
            then (case (coord1, coord2, coord3) of
                    (Scalar x, Some y, Some z) \<Rightarrow> Inr [x, y, z]
                  | _ \<Rightarrow> Inl ValueError)
            else Inl InvalidScatterer) of
        Inl e \<Rightarrow> Inl e
      | Inr trans_coords \<Rightarrow>
          (case np_add (center self) trans_coords of
             Inl e \<Rightarrow> Inl e
           | Inr c \<Rightarrow> Inr (self\<lparr>center := c\<rparr>)))"

text \<open>
  The domain the specification assigns to a point: the position, counted from \<open>n + 1\<close>,
  of the first test of the list that holds at the point, and 0 when none does. It is used
  in the proofs of what \<open>in_domain\<close> computes; the code is \<open>in_domain\<close> above.
\<close>

fun first_true_domain :: "nat \<Rightarrow> ('a \<Rightarrow> bool) list \<Rightarrow> 'a \<Rightarrow> nat" where
  "first_true_domain n [] q = 0"
| "first_true_domain n (f # fs) q = (if f q then n + 1 else first_true_domain (Suc n) fs q)"

section \<open>find\_bounds (scattering/scatterer/scatterer.py)\<close>

text \<open>
  In the search the offsets are exact reals, as the coordinates of points and centers are
  in the geometry above: \<open>1e-9\<close> is \<open>1 / 10 ^ 9\<close>, \<open>1.1\<close> is \<open>11 / 10\<close>, and the rounding
  of the products is not modelled here.

  \<open>point = np.zeros(3); point[i] = v\<close>, and the indicator's answer at that point.
\<close>

definition axis_point :: "nat \<Rightarrow> real \<Rightarrow> vec3" where
  "axis_point i v = (if i = 0 then (v, 0, 0) else if i = 1 then (0, v, 0) else (0, 0, v))"

definition probe :: "(vec3 \<Rightarrow> bool) \<Rightarrow> nat \<Rightarrow> real \<Rightarrow> bool" where
  "probe indicator i v = indicator (axis_point i v)"

text \<open>
  \<open>while indicator(point): point[i] *= factor\<close>. The loop runs for ever on an indicator
  that stays true along the axis, so it is a partial function: not returning is \<open>None\<close>.
  The source runs it with the factor 10 first and with 1.1 at the end.
\<close>

partial_function (option) expand_while :: "(real \<Rightarrow> bool) \<Rightarrow> real \<Rightarrow> real \<Rightarrow> real option" where
  "expand_while test factor v =
     (if test v then expand_while test factor (v * factor) else Some v)"

text \<open>
  \<open>while not indicator(point) and iter < 10: point[i] /= 2; iter += 1\<close>.
\<close>

function contract :: "(real \<Rightarrow> bool) \<Rightarrow> nat \<Rightarrow> real \<Rightarrow> real" where
  "contract test iter v =
     (if \<not> test v \<and> iter < 10 then contract test (iter + 1) (v / 2) else v)"
  by pat_completeness auto
termination
  by (relation "measure (\<lambda>(test, iter, v). 10 - iter)") auto

text \<open>The three loops for one axis and one direction, from the seed \<open>bounds[i][j]\<close>.\<close>

definition search_axis :: "(vec3 \<Rightarrow> bool) \<Rightarrow> nat \<Rightarrow> real \<Rightarrow> real option" where
  "search_axis indicator i seed =
     (case expand_while (probe indicator i) 10 seed of
        None \<Rightarrow> None
      | Some a \<Rightarrow> expand_while (probe indicator i) (11 / 10) (contract (probe indicator i) 0 a))"

text \<open>
  The loops over the axes \<open>i\<close> and the directions \<open>j\<close>: the seeds are \<open>-1e-9\<close> and
  \<open>1e-9\<close>, and row \<open>i\<close> of the result is \<open>[bounds[i][0], bounds[i][1]]\<close>.
\<close>

fun bounds_rows :: "(nat \<Rightarrow> real \<Rightarrow> real option) \<Rightarrow> nat list \<Rightarrow> real list list option" where
  "bounds_rows search [] = Some []"
| "bounds_rows search (i # axes) =
     (case search i (- (1 / 10 ^ 9)) of
        None \<Rightarrow> None
      | Some lo \<Rightarrow>
          (case search i (1 / 10 ^ 9) of
             None \<Rightarrow> None
           | Some hi \<Rightarrow>
               (case bounds_rows search axes of
                  None \<Rightarrow> None
                | Some rows \<Rightarrow> Some ([lo, hi] # rows))))"

definition find_bounds :: "(vec3 \<Rightarrow> bool) \<Rightarrow> real list list option" where
  "find_bounds indicator = bounds_rows (search_axis indicator) [0, 1, 2]"

text \<open>
  The search as the specification words it, for comparison with the code: the first loop
  doubles the offset.
\<close>

definition search_axis_doubling :: "(vec3 \<Rightarrow> bool) \<Rightarrow> nat \<Rightarrow> real \<Rightarrow> real option" where
  "search_axis_doubling indicator i seed =
     (case expand_while (probe indicator i) 2 seed of
        None \<Rightarrow> None
      | Some a \<Rightarrow> expand_while (probe indicator i) (11 / 10) (contract (probe indicator i) 0 a))"

definition find_bounds_doubling :: "(vec3 \<Rightarrow> bool) \<Rightarrow> real list list option" where
  "find_bounds_doubling indicator = bounds_rows (search_axis_doubling indicator) [0, 1, 2]"

section \<open>Scatterer parameters (scattering/scatterer/scatterer.py)\<close>

text \<open>
  The value of a scatterer attribute: a real or complex scalar, a sequence (list, tuple or
  array) or a dictionary, kept as the list of its items in insertion order. Priors (objects
  with a \<open>guess\<close> or a \<open>name\<close> attribute) and \<open>xarray\<close> values are left out: the
  properties below are about scalars, sequences and complex numbers.
\<close>

datatype pval = Real real | Cplx complex | Seq "pval list" | Dict "(string \<times> pval) list"

text \<open>\<open>str(i)\<close> for an index \<open>i\<close> of \<open>enumerate\<close>: its decimal digits.\<close>

definition digit_char :: "nat \<Rightarrow> char" where
  "digit_char d = ''0123456789'' ! d"

function str_nat :: "nat \<Rightarrow> string" where
  "str_nat n = (if n < 10 then [digit_char n] else str_nat (n div 10) @ [digit_char (n mod 10)])"
  by pat_completeness auto
termination
  by (relation "measure id") auto

text \<open>
  \<open>_expand_parameters(pairs, basekey)\<close>: \<open>expand_items\<close> is the loop over the pairs of a
  dictionary, \<open>expand_enumerated\<close> the same loop over \<open>enumerate(par)\<close>, and
  \<open>expand_parameter\<close> its body for the key \<open>basekey + str(subkey)\<close>.
\<close>

fun expand_parameter :: "string \<Rightarrow> pval \<Rightarrow> (string \<times> pval) list"
  and expand_enumerated :: "string \<Rightarrow> nat \<Rightarrow> pval list \<Rightarrow> (string \<times> pval) list"
  and expand_items :: "string \<Rightarrow> (string \<times> pval) list \<Rightarrow> (string \<times> pval) list" where
  "expand_parameter key (Real r) = [(key, Real r)]"
| "expand_parameter key (Cplx c) = [(key, Cplx c)]"
| "expand_parameter key (Seq xs) = expand_enumerated (key @ ''.'') 0 xs"
| "expand_parameter key (Dict kvs) = expand_items (key @ ''_'') kvs"
| "expand_enumerated basekey i [] = []"
| "expand_enumerated basekey i (par # pars) =
     expand_parameter (basekey @ str_nat i) par @ expand_enumerated basekey (Suc i) pars"
| "expand_items basekey [] = []"
| "expand_items basekey ((subkey, par) # pairs) =
     expand_parameter (basekey @ subkey) par @ expand_items basekey pairs"

definition expand_parameters :: "(string \<times> pval) list \<Rightarrow> (string \<times> pval) list" where
  "expand_parameters pairs = expand_items '''' pairs"

text \<open>
  \<open>dict(pairs)\<close>: a later pair with the same key replaces the value and keeps the place
  of the first.
\<close>

definition dict :: "('k \<times> 'v) list \<Rightarrow> ('k \<times> 'v) list" where
  "dict pairs = foldl (\<lambda>d (k, v). AList.update k v d) [] pairs"

text \<open>
  \<open>key.split('.', 1)[0].split('_', 1)[0]\<close>, and the set of these subkeys. The order in
  which Python iterates over a set is not fixed; the model iterates in the order of the list
  without its duplicates.
\<close>

definition split_key :: "string \<Rightarrow> string" where
  "split_key key = takeWhile (\<lambda>c. c \<noteq> CHR ''_'') (takeWhile (\<lambda>c. c \<noteq> CHR ''.'') key)"

definition subkeys_of :: "(string \<times> pval) list \<Rightarrow> string list" where
  "subkeys_of raw_pars = remdups (map (\<lambda>(key, val). split_key key) raw_pars)"

text \<open>
  The inner loop of \<open>extract_pars\<close>: \<open>for key, val in raw_pars.items()\<close>, collecting in
  \<open>subset\<close> the items whose key starts with the subkey and leaving in \<open>delimchar\<close> the
  character after the subkey in the last such key.
\<close>

fun subset_loop ::
  "string \<Rightarrow> (string \<times> pval) list \<Rightarrow> char option \<times> (string \<times> pval) list
     \<Rightarrow> error + char option \<times> (string \<times> pval) list" where
  "subset_loop subkey [] st = Inr st"
| "subset_loop subkey ((key, val) # rest) (delimchar, subdict) =
     (if take (length subkey) key = subkey
      then (if length subkey < length key
            then subset_loop subkey rest
                   (Some (key ! length subkey),
                    AList.update (drop (length subkey + 1) key) val subdict)
            else Inl IndexError)
      else subset_loop subkey rest (delimchar, subdict))"

text \<open>
  \<open>[dictform[str(i)] for i in range(len(dictform))]\<close> and
  \<open>1.0 * dictform['real'] + 1.0j * dictform['imag']\<close>, evaluated from the left: the
  real part is looked up and multiplied (\<open>TypeError\<close> on a sequence or a dictionary)
  before the imaginary part is looked up.
\<close>

fun list_form :: "(string \<times> pval) list \<Rightarrow> nat list \<Rightarrow> error + pval list" where
  "list_form dictform [] = Inr []"
| "list_form dictform (i # rest) =
     (case map_of dictform (str_nat i) of
        None \<Rightarrow> Inl KeyError
      | Some v \<Rightarrow> (case list_form dictform rest of Inl e \<Rightarrow> Inl e | Inr vs \<Rightarrow> Inr (v # vs)))"

fun as_complex :: "pval \<Rightarrow> error + complex" where
  "as_complex (Real r) = Inr (complex_of_real r)"
| "as_complex (Cplx c) = Inr c"
| "as_complex _ = Inl TypeError"

definition complex_form :: "(string \<times> pval) list \<Rightarrow> error + pval" where
  "complex_form dictform =
     (case map_of dictform ''real'' of
        None \<Rightarrow> Inl KeyError
      | Some re \<Rightarrow>
          (case as_complex re of
             Inl e \<Rightarrow> Inl e
           | Inr a \<Rightarrow>
               (case map_of dictform ''imag'' of
                  None \<Rightarrow> Inl KeyError
                | Some im \<Rightarrow>
                    (case as_complex im of
                       Inl e \<Rightarrow> Inl e
                     | Inr b \<Rightarrow> Inr (Cplx (1 * a + \<i> * b))))))"

text \<open>The total length of the keys: what decreases in the recursion of \<open>extract_pars\<close>.\<close>

definition keysum :: "(string \<times> 'v) list \<Rightarrow> nat" where
  "keysum d = sum_list (map (\<lambda>(k, v). length k) d)"

text \<open>
  The outer loop of \<open>extract_pars\<close>, \<open>for subkey in subkeys\<close>, with the local variables
  \<open>delimchar\<close> and \<open>out_dict\<close> as state; the recursive call of \<open>extract_pars\<close> on the subset
  is the call of the loop on the subset's own subkeys.
\<close>

function extract_loop ::
  "(string \<times> pval) list \<Rightarrow> string list \<Rightarrow> char option \<Rightarrow> (string \<times> pval) list
     \<Rightarrow> error + (string \<times> pval) list" where
  "extract_loop raw_pars [] delimchar out_dict = Inr out_dict"
| "extract_loop raw_pars (subkey # rest) delimchar out_dict =
     (case map_of raw_pars subkey of
        Some val \<Rightarrow> extract_loop raw_pars rest delimchar (AList.update subkey val out_dict)
      | None \<Rightarrow>
          (case subset_loop subkey raw_pars (delimchar, []) of
             Inl e \<Rightarrow> Inl e
           | Inr (delim, subdict) \<Rightarrow>
               (case delim of
                  None \<Rightarrow> Inl UnboundLocalError
                | Some c \<Rightarrow>
                    if c = CHR ''_'' then
                      (case extract_loop subdict (subkeys_of subdict) None [] of
                         Inl e \<Rightarrow> Inl e
                       | Inr d \<Rightarrow>
                           extract_loop raw_pars rest delim (AList.update subkey (Dict d) out_dict))
                    else if c = CHR ''.'' then
                      (case extract_loop subdict (subkeys_of subdict) None [] of
                         Inl e \<Rightarrow> Inl e
                       | Inr dictform \<Rightarrow>
                           if ''0'' \<in> fst ` set dictform then
                             (case list_form dictform [0 ..< length dictform] of
                                Inl e \<Rightarrow> Inl e
                              | Inr vs \<Rightarrow>
                                  extract_loop raw_pars rest delim
                                    (AList.update subkey (Seq vs) out_dict))
                           else if ''real'' \<in> fst ` set dictform then
                             (case complex_form dictform of
                                Inl e \<Rightarrow> Inl e
                              | Inr v \<Rightarrow>
                                  extract_loop raw_pars rest delim
                                    (AList.update subkey v out_dict))
                           else Inl InvalidScatterer)
                    else Inl InvalidScatterer)))"
  by pat_completeness auto


lemma keysum_update: "keysum (AList.update k v al) \<le> keysum al + length k"
  by (induction al) (auto simp: keysum_def)

lemma subset_loop_shrinks:
  "subset_loop subkey raw (d0, sub0) = Inr (d, sub) \<Longrightarrow>
     (sub = sub0 \<or> keysum sub < keysum sub0 + keysum raw) \<and> keysum sub \<le> keysum sub0 + keysum raw"
proof (induction raw arbitrary: d0 sub0)
  case Nil
  then show ?case by simp
next
  case (Cons kv raw)
  obtain key val where kv: "kv = (key, val)" by (cases kv)
  show ?case
  proof (cases "take (length subkey) key = subkey")
    case False
    with Cons.prems kv have "subset_loop subkey raw (d0, sub0) = Inr (d, sub)" by simp
    from Cons.IH [OF this] show ?thesis by (auto simp: kv keysum_def)
  next
    case True
    with Cons.prems kv have len: "length subkey < length key"
      by (auto split: if_splits)
    let ?sub1 = "AList.update (drop (length subkey + 1) key) val sub0"
    from True len Cons.prems kv have
      "subset_loop subkey raw (Some (key ! length subkey), ?sub1) = Inr (d, sub)" by simp
    from Cons.IH [OF this] have "keysum sub \<le> keysum ?sub1 + keysum raw" by simp
    moreover have "keysum ?sub1 \<le> keysum sub0 + (length key - (length subkey + 1))"
      using keysum_update [of "drop (length subkey + 1) key" val sub0] by simp
    moreover have "keysum (kv # raw) = length key + keysum raw"
      by (simp add: kv keysum_def)
    ultimately have "keysum sub < keysum sub0 + keysum (kv # raw)"
      using len by arith
    then show ?thesis by simp
  qed
qed

lemma subset_loop_measure:
  assumes "subset_loop subkey raw (d0, []) = Inr (d, sub)" and "\<not> keysum sub < keysum raw"
  shows "keysum sub = keysum raw" and "length (subkeys_of sub) < Suc n"
proof -
  from subset_loop_shrinks [OF assms(1)] assms(2) have "sub = []"
    by (simp add: keysum_def)
  with assms(2) show "keysum sub = keysum raw" and "length (subkeys_of sub) < Suc n"
    by (simp_all add: subkeys_of_def keysum_def)
qed

termination extract_loop
  apply (relation "inv_image (less_than <*lex*> less_than)
         (\<lambda>(raw, subkeys, delimchar, out_dict). (keysum raw, length subkeys))")
        apply (intro wf_inv_image wf_lex_prod wf_less_than)
       apply (auto intro: subset_loop_measure)
  done

definition extract_pars :: "(string \<times> pval) list \<Rightarrow> error + (string \<times> pval) list" where
  "extract_pars raw_pars = extract_loop raw_pars (subkeys_of raw_pars) None []"

text \<open>
  \<open>CenteredScatterer.__init__\<close>: a center that is a scalar or whose length is not 3 is
  refused. The length of a dictionary is the number of its keys.
\<close>

record centered_scatterer =
  cs_center :: "pval option"

definition CenteredScatterer :: "pval option \<Rightarrow> error + centered_scatterer" where
  "CenteredScatterer center_arg =
     (case center_arg of
        None \<Rightarrow> Inr \<lparr>cs_center = None\<rparr>
      | Some (Real r) \<Rightarrow> Inl InvalidScatterer
      | Some (Cplx c) \<Rightarrow> Inl InvalidScatterer
      | Some (Seq xs) \<Rightarrow>
          if length xs \<noteq> 3 then Inl InvalidScatterer else Inr \<lparr>cs_center = center_arg\<rparr>
      | Some (Dict d) \<Rightarrow>
          if length d \<noteq> 3 then Inl InvalidScatterer else Inr \<lparr>cs_center = center_arg\<rparr>)"

text \<open>
  Modelled from the spec: \<open>HoloPyObject._dict\<close> (\<open>core/holopy_object.py\<close>) is not among the
  sources. The constructor arguments of an object are recoverable from its attributes:
  \<open>_dict\<close> maps the name of every constructor argument that is set to the attribute's
  value. \<open>CenteredScatterer\<close> has the one argument \<open>center\<close>.
\<close>

definition obj_dict :: "centered_scatterer \<Rightarrow> (string \<times> pval) list" where
  "obj_dict self = (case cs_center self of None \<Rightarrow> [] | Some c \<Rightarrow> [(''center'', c)])"

text \<open>The property \<open>parameters\<close>.\<close>

definition parameters :: "centered_scatterer \<Rightarrow> (string \<times> pval) list" where
  "parameters self = dict (expand_parameters (obj_dict self))"

text \<open>
  \<open>from_parameters\<close>: the values of the object's own flat parameters are replaced by
  the given ones where the key is given, the result is unflattened, and the class is called
  with the dictionary as its one positional argument: \<open>type(self)(extract_pars(all_pars))\<close>.
\<close>

definition from_parameters ::
  "centered_scatterer \<Rightarrow> (string \<times> pval) list \<Rightarrow> error + centered_scatterer" where
  "from_parameters self given =
     (let all_pars = map (\<lambda>(key, val). case map_of given key of
                                           Some new \<Rightarrow> (key, new)
                                         | None \<Rightarrow> (key, val)) (parameters self)
      in case extract_pars all_pars of
           Inl e \<Rightarrow> Inl e
         | Inr d \<Rightarrow> CenteredScatterer (Some (Dict d)))"

section \<open>Properties of Parameter and Minimizer\<close>



lemma exponent_eq:
  assumes "2 powi e \<le> \<bar>y\<bar>" and "\<bar>y\<bar> < 2 powi (e + 1)" and "- 1022 \<le> e" and "e \<le> 1023"
  shows "exponent y = e"
  unfolding exponent_def
proof (rule Max_eqI)
  have "finite {k \<in> {- 1022 .. 1023}. (2::real) powi k \<le> \<bar>y\<bar>}"
    by (rule finite_subset [where B = "{- 1022 .. 1023}"]) auto
  then show "finite (insert (- 1022) {k \<in> {- 1022 .. 1023}. (2::real) powi k \<le> \<bar>y\<bar>})"
    by (rule finite.insertI)
  show "e \<in> insert (- 1022) {k \<in> {- 1022 .. 1023}. 2 powi k \<le> \<bar>y\<bar>}"
    using assms by simp
  fix k assume "k \<in> insert (- 1022) {k \<in> {- 1022 .. 1023}. 2 powi k \<le> \<bar>y\<bar>}"
  then consider "k = - 1022" | "2 powi k \<le> \<bar>y\<bar>" by blast
  then show "k \<le> e"
  proof cases
    case 1
    with assms(3) show ?thesis by simp
  next
    case 2
    show ?thesis
    proof (rule ccontr)
      assume "\<not> k \<le> e"
      then have "e + 1 \<le> k" by simp
      then have "(2::real) powi (e + 1) \<le> 2 powi k"
        by (intro power_int_increasing) simp_all
      with 2 assms(2) show False by linarith
    qed
  qed
qed

lemma binary64_at:
  assumes "2 powi e \<le> \<bar>y\<bar>" and "\<bar>y\<bar> < 2 powi (e + 1)" and "- 1022 \<le> e" and "e \<le> 1023"
  shows "binary64 y =
     (let r = of_int (round_half_even (y / 2 powi (e - 52))) * 2 powi (e - 52)
      in if 2 ^ 1024 \<le> \<bar>r\<bar> then (if 0 < y then PInf else NInf) else Fin r)"
proof -
  have "\<not> (2::real) powi e \<le> 0" by (simp add: not_le)
  with assms(1) have "y \<noteq> 0" by auto
  with exponent_eq [OF assms] show ?thesis
    by (simp add: binary64_def Let_def)
qed




lemma binary64_zero: "binary64 0 = Fin 0"
  by (simp add: binary64_def)

lemma binary64_one: "binary64 1 = Fin 1"
  using binary64_at [of 0 1] by (simp add: round_half_even_def power_int_minus)



lemma scale_by_numpy_factor:
  "scale_factor p = Np b \<Longrightarrow> scale p x = Inr (Np (fl_div (fval x) b))"
  by (cases x) (simp_all add: scale_def)

lemma limited_flags_numpy_factor:
  "scale_factor p = Np b \<Longrightarrow> limited_flags p [Some lo, Some hi] = Inr [True, True]"
  by (simp add: scale_by_numpy_factor)

lemma scale_array_full:
  "\<exists>qs. scale_array p [Some lo, Some hi] = Inr qs"
  by simp

lemma Parameter_without_guess:
  assumes "Parameter nm None l m = Inr p"
  shows "\<exists>lo hi. l = Some (Some lo, Some hi) \<and> guess p = None \<and> limit p = l
           \<and> scale_factor p = np_sqrt (num_mul lo hi)"
  using assms
  by (auto simp: Parameter_def split: option.splits prod.splits)

lemma nmp_par_without_guess:
  assumes "Parameter nm None l m = Inr p"
  shows "nmp_par p = Inl InvalidParameterSpecification"
proof -
  from Parameter_without_guess [OF assms] obtain lo hi where
    l: "limit p = Some (Some lo, Some hi)" and g: "guess p = None"
    and sf: "scale_factor p = np_sqrt (num_mul lo hi)"
    by auto
  from sf have np: "scale_factor p = Np (fl_sqrt (fval (num_mul lo hi)))"
    by (simp add: np_sqrt_def)
  show ?thesis
    by (simp add: nmp_par_def l g scale_by_numpy_factor [OF np])
qed

lemma nmp_pars_stops:
  "nmp_par p = Inl e \<Longrightarrow> \<exists>e'. nmp_pars (qs @ p # rest) = Inl e'"
  by (induction qs) (auto split: sum.splits)

lemma nmp_pars_stops_at:
  "nmp_pars qs = Inr ds \<Longrightarrow> nmp_par p = Inl e \<Longrightarrow> nmp_pars (qs @ p # rest) = Inl e"
  by (induction qs arbitrary: ds) (auto split: sum.splits)

text \<open>
  C4. Whenever \<open>minimize\<close> returns a result, the converged flag is true for a solver
  status in \<open>{1, 2, 3}\<close> and false for a status of 4 or more.
\<close>

theorem minimize_converged_flag:
  assumes "minimize self mpfit pars = Inr (Some (xs, converged, fr))"
  shows "(status fr \<in> {1, 2, 3} \<longrightarrow> converged) \<and> (4 \<le> status fr \<longrightarrow> \<not> converged)"
  using assms
  by (auto simp: minimize_def Let_def split: if_splits sum.splits)

theorem minimize_converged_flag_witness:
  "minimize Minimizer (\<lambda>ds. \<lparr>status = 2, params = map par_value ds\<rparr>)
      [\<lparr>name = ''r'', guess = Some (Py (Fin 2)), limit = None, misc = None,
        scale_factor = Py (Fin 2)\<rparr>]
     = Inr (Some ([Py (Fin 1)], True, \<lparr>status = 2, params = [Py (Fin 1)]\<rparr>))
   \<and> minimize Minimizer (\<lambda>ds. \<lparr>status = 5, params = map par_value ds\<rparr>)
      [\<lparr>name = ''r'', guess = Some (Py (Fin 2)), limit = None, misc = None,
        scale_factor = Py (Fin 2)\<rparr>]
     = Inr (Some ([Py (Fin 1)], False, \<lparr>status = 5, params = [Py (Fin 1)]\<rparr>))"
proof -
  let ?p = "\<lparr>name = ''r'', guess = Some (Py (Fin 2)), limit = None, misc = None,
             scale_factor = Py (Fin 2)\<rparr>"
  have a: "minimize Minimizer (\<lambda>ds. \<lparr>status = 2, params = map par_value ds\<rparr>) [?p]
     = Inr (Some ([Py (Fin 1)], True, \<lparr>status = 2, params = [Py (Fin 1)]\<rparr>))"
    by (simp add: minimize_def Minimizer_def nmp_par_def scale_def binary64_one)
  have b: "minimize Minimizer (\<lambda>ds. \<lparr>status = 5, params = map par_value ds\<rparr>) [?p]
     = Inr (Some ([Py (Fin 1)], False, \<lparr>status = 5, params = [Py (Fin 1)]\<rparr>))"
    by (simp add: minimize_def Minimizer_def nmp_par_def scale_def binary64_one)
  show ?thesis
    using a b minimize_converged_flag [OF a] minimize_converged_flag [OF b] by simp
qed

text \<open>
  C5 (as amended). With the default algorithm, a list holding a Parameter that was built
  without a guess never reaches the solver: \<open>minimize\<close> raises. The exception is
  \<open>InvalidParameterSpecification\<close> whenever the entries of the parameters before it were
  built without an exception, in particular when it is the only parameter.
\<close>

theorem minimize_requires_guess:
  assumes "Parameter nm None l m = Inr p"
  shows "(\<exists>e. minimize Minimizer mpfit (qs @ p # rest) = Inl e)
       \<and> (\<forall>ds. nmp_pars qs = Inr ds
              \<longrightarrow> minimize Minimizer mpfit (qs @ p # rest) = Inl InvalidParameterSpecification)
       \<and> minimize Minimizer mpfit [p] = Inl InvalidParameterSpecification"
proof -
  have stop: "nmp_par p = Inl InvalidParameterSpecification"
    by (rule nmp_par_without_guess [OF assms])
  from nmp_pars_stops [OF stop] obtain e' where "nmp_pars (qs @ p # rest) = Inl e'"
    by blast
  then have first: "\<exists>e. minimize Minimizer mpfit (qs @ p # rest) = Inl e"
    by (simp add: minimize_def Minimizer_def)
  have second: "\<forall>ds. nmp_pars qs = Inr ds
      \<longrightarrow> minimize Minimizer mpfit (qs @ p # rest) = Inl InvalidParameterSpecification"
    by (simp add: minimize_def Minimizer_def nmp_pars_stops_at [OF _ stop])
  have third: "minimize Minimizer mpfit [p] = Inl InvalidParameterSpecification"
    by (simp add: minimize_def Minimizer_def stop)
  from first second third show ?thesis by blast
qed

theorem minimize_requires_guess_witness:
  "Parameter ''r'' None (Some (Some (Py (Fin 1)), Some (Py (Fin 2)))) None
     = Inr \<lparr>name = ''r'', guess = None, limit = Some (Some (Py (Fin 1)), Some (Py (Fin 2))),
            misc = None, scale_factor = np_sqrt (num_mul (Py (Fin 1)) (Py (Fin 2)))\<rparr>
   \<and> minimize Minimizer (\<lambda>ds. \<lparr>status = 1, params = map par_value ds\<rparr>)
       [\<lparr>name = ''r'', guess = None, limit = Some (Some (Py (Fin 1)), Some (Py (Fin 2))),
            misc = None, scale_factor = np_sqrt (num_mul (Py (Fin 1)) (Py (Fin 2)))\<rparr>]
     = Inl InvalidParameterSpecification"
proof -
  have h: "Parameter ''r'' None (Some (Some (Py (Fin 1)), Some (Py (Fin 2)))) None
     = Inr \<lparr>name = ''r'', guess = None, limit = Some (Some (Py (Fin 1)), Some (Py (Fin 2))),
            misc = None, scale_factor = np_sqrt (num_mul (Py (Fin 1)) (Py (Fin 2)))\<rparr>"
    by (simp add: Parameter_def)
  show ?thesis
    using h minimize_requires_guess [OF h, of "\<lambda>ds. \<lparr>status = 1, params = map par_value ds\<rparr>" "[]" "[]"]
    by simp
qed

text \<open>
  C5 as stated fails: a Parameter with guess 0 ahead of the one without a guess makes
  \<open>minimize\<close> raise \<open>ZeroDivisionError\<close> (scaling the guess divides 0 by 0) before the
  missing guess is looked at.
\<close>

theorem minimize_requires_guess_counterexample:
  "Parameter ''a'' (Some (Py (Fin 0))) None None
     = Inr \<lparr>name = ''a'', guess = Some (Py (Fin 0)), limit = None, misc = None,
            scale_factor = Py (Fin 0)\<rparr>
   \<and> Parameter ''b'' None (Some (Some (Py (Fin 1)), Some (Py (Fin 2)))) None
     = Inr \<lparr>name = ''b'', guess = None, limit = Some (Some (Py (Fin 1)), Some (Py (Fin 2))),
            misc = None, scale_factor = np_sqrt (num_mul (Py (Fin 1)) (Py (Fin 2)))\<rparr>
   \<and> minimize Minimizer (\<lambda>ds. \<lparr>status = 1, params = map par_value ds\<rparr>)
       [\<lparr>name = ''a'', guess = Some (Py (Fin 0)), limit = None, misc = None,
            scale_factor = Py (Fin 0)\<rparr>,
        \<lparr>name = ''b'', guess = None, limit = Some (Some (Py (Fin 1)), Some (Py (Fin 2))),
            misc = None, scale_factor = np_sqrt (num_mul (Py (Fin 1)) (Py (Fin 2)))\<rparr>]
     = Inl ZeroDivisionError"
  by (simp add: Parameter_def minimize_def Minimizer_def nmp_par_def scale_def)

text \<open>
  C8, at the failing input: a Parameter with a guess and the limit \<open>(None, 2.0)\<close>. The
  flags are computed as \<open>par.scale(l) is not None\<close>, so the absent side is divided by the
  scale factor and \<open>minimize\<close> raises \<open>TypeError\<close> instead of clearing that side's flag.
\<close>

theorem minimize_absent_limit_side:
  "Parameter ''r'' (Some (Py (Fin 1))) (Some (None, Some (Py (Fin 2)))) None
     = Inr \<lparr>name = ''r'', guess = Some (Py (Fin 1)), limit = Some (None, Some (Py (Fin 2))),
            misc = None, scale_factor = Py (Fin 1)\<rparr>
   \<and> minimize Minimizer (\<lambda>ds. \<lparr>status = 1, params = map par_value ds\<rparr>)
       [\<lparr>name = ''r'', guess = Some (Py (Fin 1)), limit = Some (None, Some (Py (Fin 2))),
            misc = None, scale_factor = Py (Fin 1)\<rparr>]
     = Inl TypeError"
  by (simp add: Parameter_def minimize_def Minimizer_def nmp_par_def)

text \<open>
  What the loop body of \<open>minimize\<close> does build: with a limit whose two sides are numbers
  both flags are true and the bounds are the sides divided by the scale factor; without a
  limit both flags are false; the initial value is the scaled guess.
\<close>

lemma nmp_par_with_limit:
  assumes "limit par = Some (Some lo, Some hi)" and "guess par = Some g"
    and "scale par lo = Inr qlo" and "scale par hi = Inr qhi" and "scale par g = Inr v"
  shows "\<exists>blo bhi. nmp_par par
           = Inr \<lparr>parname = name par, limited = [True, True],
                  limits = Some [blo, bhi], par_value = v\<rparr>
         \<and> fval blo = fval qlo \<and> fval bhi = fval qhi"
proof -
  have q: "fval qlo = fl_div (fval lo) (fval (scale_factor par))"
    using assms(3)
    by (cases lo; cases "scale_factor par") (auto simp: scale_def split: if_splits)
  have r: "fval qhi = fl_div (fval hi) (fval (scale_factor par))"
    using assms(4)
    by (cases hi; cases "scale_factor par") (auto simp: scale_def split: if_splits)
  show ?thesis
    using assms q r by (simp add: nmp_par_def)
qed

lemma nmp_par_without_limit:
  assumes "limit par = None" and "guess par = Some g" and "scale par g = Inr v"
  shows "nmp_par par
           = Inr \<lparr>parname = name par, limited = [False, False], limits = None, par_value = v\<rparr>"
  using assms by (simp add: nmp_par_def)







text \<open>
  C10. A guess of 0, or without a guess a limit whose product \<open>lo * hi\<close> is 0, is
  accepted by the constructor and gives the scale factor 0. For such a Parameter and every
  finite nonzero \<open>x\<close>, \<open>scale(x)\<close> divides by zero (it raises \<open>ZeroDivisionError\<close>, or
  yields an infinity when a NumPy value is involved), and \<open>unscale(scale(x))\<close> never
  equals \<open>x\<close>.
\<close>

theorem zero_scale_factor:
  assumes "(g = Some gv \<and> fval gv = Fin 0)
         \<or> (g = None \<and> l = Some (Some lo, Some hi) \<and> fl_mul (fval lo) (fval hi) = Fin 0)"
  shows "\<exists>p. Parameter nm g l m = Inr p \<and> fval (scale_factor p) = Fin 0
           \<and> (\<forall>x a. fval x = Fin a \<and> a \<noteq> 0 \<longrightarrow>
                 (scale p x = Inl ZeroDivisionError
                    \<or> (\<exists>q. scale p x = Inr q \<and> (fval q = PInf \<or> fval q = NInf)))
               \<and> (\<forall>y. unscale_scale p x = Inr y \<longrightarrow> \<not> num_eq y x))"
proof -
  have div0: "(scale p x = Inl ZeroDivisionError
                 \<or> (\<exists>q. scale p x = Inr q \<and> (fval q = PInf \<or> fval q = NInf)))
              \<and> (\<forall>y. unscale_scale p x = Inr y \<longrightarrow> \<not> num_eq y x)"
    if "fval (scale_factor p) = Fin 0" and "fval x = Fin a" and "a \<noteq> 0" for p x a
    using that
    by (cases x; cases "scale_factor p")
       (auto simp: unscale_scale_def scale_def unscale_def num_eq_def)
  from assms show ?thesis
  proof
    assume a: "g = Some gv \<and> fval gv = Fin 0"
    then have "Parameter nm g l m
        = Inr \<lparr>name = nm, guess = g, limit = l, misc = m, scale_factor = gv\<rparr>"
      by (simp add: Parameter_def)
    moreover have "fval (scale_factor
        \<lparr>name = nm, guess = g, limit = l, misc = m, scale_factor = gv\<rparr>) = Fin 0"
      using a by simp
    ultimately show ?thesis
      using div0 by blast
  next
    assume b: "g = None \<and> l = Some (Some lo, Some hi) \<and> fl_mul (fval lo) (fval hi) = Fin 0"
    have prod: "fval (num_mul lo hi) = fl_mul (fval lo) (fval hi)"
      by (cases lo; cases hi) simp_all
    from b have "Parameter nm g l m
        = Inr \<lparr>name = nm, guess = g, limit = l, misc = m,
               scale_factor = np_sqrt (num_mul lo hi)\<rparr>"
      by (simp add: Parameter_def)
    moreover have "fval (scale_factor
        \<lparr>name = nm, guess = g, limit = l, misc = m,
         scale_factor = np_sqrt (num_mul lo hi)\<rparr>) = Fin 0"
      using b by (simp add: np_sqrt_def prod binary64_zero)
    ultimately show ?thesis
      using div0 by blast
  qed
qed

theorem zero_scale_factor_witness:
  "(\<exists>p. Parameter ''r'' (Some (Py (Fin 0))) None None = Inr p
        \<and> fval (scale_factor p) = Fin 0
        \<and> scale p (Py (Fin 1)) = Inl ZeroDivisionError)
   \<and> (\<exists>p. Parameter ''r'' None (Some (Some (Py (Fin 0)), Some (Py (Fin 5)))) None = Inr p
        \<and> fval (scale_factor p) = Fin 0
        \<and> scale p (Py (Fin 1)) = Inr (Np PInf))"
  using zero_scale_factor [of "Some (Py (Fin 0))" "Py (Fin 0)" None "Py (Fin 0)" "Py (Fin 0)" "''r''" None]
    zero_scale_factor [of None "Py (Fin 0)" "Some (Some (Py (Fin 0)), Some (Py (Fin 5)))"
       "Py (Fin 0)" "Py (Fin 5)" "''r''" None]
  by (simp add: Parameter_def np_sqrt_def scale_def binary64_zero)

section \<open>Properties of the scatterer geometry\<close>

lemma length_assign_where:
  "length ind = length domains \<Longrightarrow> length (assign_where domains ind v) = length domains"
  by (simp add: assign_where_def)

lemma nth_assign_where:
  "length ind = length domains \<Longrightarrow> k < length domains \<Longrightarrow>
     assign_where domains ind v ! k = (if ind ! k then v else domains ! k)"
  by (simp add: assign_where_def)

lemma reversed_scan:
  "length (foldl (\<lambda>domains (i, ind). assign_where domains ind (i + 1))
            (replicate (length qs) 0)
            (rev (enumerate n (map (\<lambda>test. map test qs) fs)))) = length qs
   \<and> (\<forall>k < length qs.
        foldl (\<lambda>domains (i, ind). assign_where domains ind (i + 1))
            (replicate (length qs) 0)
            (rev (enumerate n (map (\<lambda>test. map test qs) fs))) ! k
        = first_true_domain n fs (qs ! k))"
proof (induction fs arbitrary: n)
  case Nil
  show ?case by simp
next
  case (Cons f fs)
  from Cons.IH [of "Suc n"] show ?case
    by (simp add: length_assign_where nth_assign_where)
qed

lemma first_true_domain_none: "(first_true_domain n fs q = 0) = (\<forall>i < length fs. \<not> (fs ! i) q)"
proof (induction fs arbitrary: n)
  case Nil
  show ?case by simp
next
  case (Cons f fs)
  show ?case
    by (auto simp: Cons.IH nth_Cons split: nat.splits)
qed

lemma first_true_domain_first:
  "i < length fs \<Longrightarrow> (fs ! i) q \<Longrightarrow> \<forall>j < i. \<not> (fs ! j) q \<Longrightarrow> first_true_domain n fs q = n + i + 1"
proof (induction fs arbitrary: n i)
  case Nil
  then show ?case by simp
next
  case (Cons f fs)
  show ?case
  proof (cases i)
    case 0
    with Cons.prems show ?thesis by simp
  next
    case (Suc i')
    with Cons.prems have "\<not> f q" by auto
    moreover have "first_true_domain (Suc n) fs q = Suc n + i' + 1"
      using Cons.prems Suc by (intro Cons.IH) auto
    ultimately show ?thesis using Suc by simp
  qed
qed

lemma in_domain_rows:
  assumes "as_rows points = Inr ps" and "sub_center ps (center self) = Inr qs"
  shows "\<exists>domains. in_domain self points = Inr domains \<and> length domains = length qs
           \<and> (\<forall>k < length qs. domains ! k = first_true_domain 0 (ind_functions (indicators self)) (qs ! k))"
    and "length qs = length ps"
proof -
  show len: "length qs = length ps"
    using assms(2) by (cases "(ps, center self)" rule: sub_center.cases) auto
  show "\<exists>domains. in_domain self points = Inr domains \<and> length domains = length qs
           \<and> (\<forall>k < length qs. domains ! k = first_true_domain 0 (ind_functions (indicators self)) (qs ! k))"
    using reversed_scan [where n = 0 and qs = qs and fs = "ind_functions (indicators self)"] assms len
    by (simp add: in_domain_def call_indicators_def)
qed

text \<open>
  C2. For a scatterer with a three-entry center, \<open>in_domain\<close> gives every point the
  value \<open>i + 1\<close> where \<open>i\<close> is the index of the first indicator, in the order of the
  list, that holds at the point taken relative to the center, and 0 when no indicator holds
  there. A point inside both domain 1 and domain 2 is the case \<open>i = 0\<close>: it gets 1.
\<close>

theorem in_domain_first_indicator:
  assumes "as_rows points = Inr ps" and "center self = [cx, cy, cz]"
    and "k < length ps" and "ps ! k = (x, y, z)"
  shows "\<exists>domains. in_domain self points = Inr domains \<and> length domains = length ps
     \<and> (\<forall>i. i < length (ind_functions (indicators self))
             \<and> (ind_functions (indicators self) ! i) (x - cx, y - cy, z - cz)
             \<and> (\<forall>j < i. \<not> (ind_functions (indicators self) ! j) (x - cx, y - cy, z - cz))
           \<longrightarrow> domains ! k = i + 1)
     \<and> ((\<forall>i < length (ind_functions (indicators self)).
            \<not> (ind_functions (indicators self) ! i) (x - cx, y - cy, z - cz))
           \<longrightarrow> domains ! k = 0)"
proof -
  let ?qs = "map (\<lambda>(x, y, z). (x - cx, y - cy, z - cz)) ps"
  have sub: "sub_center ps (center self) = Inr ?qs"
    by (simp add: assms(2))
  have q: "?qs ! k = (x - cx, y - cy, z - cz)"
    using assms(3,4) by simp
  from in_domain_rows(1) [OF assms(1) sub] obtain domains where
    d: "in_domain self points = Inr domains" "length domains = length ps"
    and v: "domains ! k = first_true_domain 0 (ind_functions (indicators self)) (?qs ! k)"
    using assms(3) by auto
  show ?thesis
    using d v q first_true_domain_none [of 0 "ind_functions (indicators self)" "(x - cx, y - cy, z - cz)"]
      first_true_domain_first [of _ "ind_functions (indicators self)" "(x - cx, y - cy, z - cz)" 0]
    by auto
qed


theorem in_domain_first_indicator_witness:
  "in_domain
     \<lparr>indicators = \<lparr>ind_functions = [\<lambda>(x, y, z). x \<le> 2, \<lambda>(x, y, z). x \<le> 5],
                     bound = [(-2, 2), (0, 0), (0, 0)]\<rparr>,
      sc_n = [Complex 1.5 0, Complex 1.6 0.1], center = [1, 0, 0]\<rparr>
     (Points [(2, 0, 0), (4, 0, 0), (8, 0, 0)]) = Inr [1, 2, 0]"
  using in_domain_first_indicator [of "Points [(2, 0, 0), (4, 0, 0), (8, 0, 0)]"
      "[(2, 0, 0), (4, 0, 0), (8, 0, 0)]"
      "\<lparr>indicators = \<lparr>ind_functions = [\<lambda>(x, y, z). x \<le> 2, \<lambda>(x, y, z). x \<le> 5],
                     bound = [(-2, 2), (0, 0), (0, 0)]\<rparr>,
      sc_n = [Complex 1.5 0, Complex 1.6 0.1], center = [1, 0, 0]\<rparr>" 1 0 0 0 2 0 0]
  by (simp add: in_domain_def call_indicators_def assign_where_def enumerate_eq_zip)

lemma index_scan:
  assumes "length idx = length domains"
  shows "length (foldl (\<lambda>index (i, n). assign_where index (map (\<lambda>d. d = i + 1) domains) n)
                  idx (enumerate m ns)) = length domains
    \<and> (\<forall>k < length domains.
          foldl (\<lambda>index (i, n). assign_where index (map (\<lambda>d. d = i + 1) domains) n)
                  idx (enumerate m ns) ! k
          = (if m < domains ! k \<and> domains ! k \<le> m + length ns
             then ns ! (domains ! k - m - 1) else idx ! k))"
  using assms
proof (induction ns arbitrary: m idx)
  case Nil
  then show ?case by auto
next
  case (Cons x xs)
  let ?idx = "assign_where idx (map (\<lambda>d. d = m + 1) domains) x"
  have len: "length ?idx = length domains"
    using Cons.prems by (simp add: length_assign_where)
  have nth: "\<forall>k < length domains. ?idx ! k = (if domains ! k = m + 1 then x else idx ! k)"
    using Cons.prems by (simp add: nth_assign_where)
  let ?res = "foldl (\<lambda>index (i, n). assign_where index (map (\<lambda>d. d = i + 1) domains) n)
                  ?idx (enumerate (Suc m) xs)"
  from Cons.IH [OF len, of "Suc m"] have
    rlen: "length ?res = length domains" and
    rnth: "\<forall>k < length domains. ?res ! k
          = (if Suc m < domains ! k \<and> domains ! k \<le> Suc m + length xs
             then xs ! (domains ! k - Suc m - 1) else ?idx ! k)"
    by simp_all
  have "?res ! k = (if m < domains ! k \<and> domains ! k \<le> m + length (x # xs)
             then (x # xs) ! (domains ! k - m - 1) else idx ! k)"
    if k: "k < length domains" for k
  proof -
    from rnth k have r: "?res ! k
          = (if Suc m < domains ! k \<and> domains ! k \<le> Suc m + length xs
             then xs ! (domains ! k - Suc m - 1) else ?idx ! k)"
      by blast
    from nth k have i: "?idx ! k = (if domains ! k = m + 1 then x else idx ! k)"
      by blast
    show ?thesis
    proof (cases "domains ! k = Suc m")
      case True
      with r i show ?thesis by simp
    next
      case False
      show ?thesis
      proof (cases "Suc m < domains ! k \<and> domains ! k \<le> Suc m + length xs")
        case True
        then have "domains ! k - m - 1 = Suc (domains ! k - Suc m - 1)" by arith
        with True r show ?thesis by simp
      next
        case no: False
        with False have "\<not> (m < domains ! k \<and> domains ! k \<le> m + length (x # xs))" by auto
        with no False r i show ?thesis by auto
      qed
    qed
  qed
  with rlen show ?case by simp
qed

text \<open>
  C7. At a point that \<open>in_domain\<close> puts in domain \<open>i \<ge> 1\<close>, \<open>index_at\<close> returns the
  entry \<open>i - 1\<close> of the index list (when the list has one), and at a point of domain 0 the
  background.
\<close>

theorem index_at_by_domain:
  assumes "in_domain self points = Inr domains" and "k < length domains"
  shows "\<exists>index. index_at self points background = Inr index
     \<and> length index = length domains
     \<and> (domains ! k = 0 \<longrightarrow> index ! k = background)
     \<and> (1 \<le> domains ! k \<and> domains ! k \<le> length (sc_n self)
           \<longrightarrow> index ! k = sc_n self ! (domains ! k - 1))
     \<and> (length (sc_n self) < domains ! k \<longrightarrow> index ! k = background)"
  using assms index_scan [of "replicate (length domains) background" domains 0 "sc_n self"]
  by (auto simp: index_at_def)

theorem index_at_by_domain_witness:
  "in_domain
     \<lparr>indicators = \<lparr>ind_functions = [\<lambda>(x, y, z). x \<le> 2, \<lambda>(x, y, z). x \<le> 5],
                     bound = [(-2, 2), (0, 0), (0, 0)]\<rparr>,
      sc_n = [Complex 1.5 0, Complex 1.6 0.1], center = [1, 0, 0]\<rparr>
     (Points [(2, 0, 0), (4, 0, 0), (8, 0, 0)]) = Inr [1, 2, 0]
   \<and> index_at
     \<lparr>indicators = \<lparr>ind_functions = [\<lambda>(x, y, z). x \<le> 2, \<lambda>(x, y, z). x \<le> 5],
                     bound = [(-2, 2), (0, 0), (0, 0)]\<rparr>,
      sc_n = [Complex 1.5 0, Complex 1.6 0.1], center = [1, 0, 0]\<rparr>
     (Points [(2, 0, 0), (4, 0, 0), (8, 0, 0)]) 1
       = Inr [Complex 1.5 0, Complex 1.6 0.1, 1]"
proof -
  let ?s = "\<lparr>indicators = \<lparr>ind_functions = [\<lambda>(x, y, z). x \<le> 2, \<lambda>(x, y, z). x \<le> 5],
                     bound = [(-2, 2), (0, 0), (0, 0)]\<rparr>,
      sc_n = [Complex 1.5 0, Complex 1.6 0.1], center = [1, 0, 0]\<rparr>"
  have d: "in_domain ?s (Points [(2, 0, 0), (4, 0, 0), (8, 0, 0)]) = Inr [1, 2, 0]"
    by (simp add: in_domain_def call_indicators_def assign_where_def enumerate_eq_zip)
  have k: "(1::nat) < length [1, 2, 0 :: nat]"
    by simp
  show ?thesis
    using d index_at_by_domain [OF d k, of 1]
    by (simp add: index_at_def assign_where_def enumerate_eq_zip upt_rec)
qed

text \<open>
  What \<open>translated\<close> does on the two intended argument shapes: three scalars, or one
  sequence of three entries, are added to a three-entry center entry by entry, and the
  opposite translation restores the center.
\<close>

lemma translated_three_scalars:
  assumes "center self = [cx, cy, cz]"
  shows "translated self (Scalar dx) (Some dy) (Some dz)
           = Inr (self\<lparr>center := [cx + dx, cy + dy, cz + dz]\<rparr>)"
  using assms by (simp add: translated_def is_none_def np_add_def)

lemma translated_vector:
  assumes "center self = [cx, cy, cz]"
  shows "translated self (Vector [dx, dy, dz]) None None
           = Inr (self\<lparr>center := [cx + dx, cy + dy, cz + dz]\<rparr>)"
  using assms by (simp add: translated_def is_none_def np_add_def)

lemma translated_round_trip:
  assumes "center self = [cx, cy, cz]"
  shows "\<exists>moved back. translated self (Scalar 1) (Some 2) (Some 3) = Inr moved
           \<and> translated moved (Scalar (- 1)) (Some (- 2)) (Some (- 3)) = Inr back
           \<and> center back = center self"
  using assms by (simp add: translated_def is_none_def np_add_def)

lemma translated_invalid:
  "translated self (Vector []) None None = Inl InvalidScatterer"
  "translated self c (Some dy) None = Inl InvalidScatterer"
  by (simp_all add: translated_def is_none_def)

text \<open>
  C6, at the failing inputs. A sequence of one entry, a sequence of two entries and a
  single scalar are neither a 3-vector nor three scalars, and none of them raises
  \<open>InvalidScatterer\<close>: the first and the last move the center by the same amount along
  every axis, the second raises NumPy's \<open>ValueError\<close>.
\<close>

theorem translated_ambiguous_shape:
  "translated
     \<lparr>indicators = \<lparr>ind_functions = [\<lambda>(x, y, z). x \<le> 2], bound = [(-2, 2), (0, 0), (0, 0)]\<rparr>,
      sc_n = [Complex 1.5 0], center = [1, 0, 0]\<rparr> (Vector [7]) None None
     = Inr \<lparr>indicators = \<lparr>ind_functions = [\<lambda>(x, y, z). x \<le> 2],
                            bound = [(-2, 2), (0, 0), (0, 0)]\<rparr>,
            sc_n = [Complex 1.5 0], center = [8, 7, 7]\<rparr>
   \<and> translated
     \<lparr>indicators = \<lparr>ind_functions = [\<lambda>(x, y, z). x \<le> 2], bound = [(-2, 2), (0, 0), (0, 0)]\<rparr>,
      sc_n = [Complex 1.5 0], center = [1, 0, 0]\<rparr> (Vector [1, 2]) None None
     = Inl ValueError
   \<and> translated
     \<lparr>indicators = \<lparr>ind_functions = [\<lambda>(x, y, z). x \<le> 2], bound = [(-2, 2), (0, 0), (0, 0)]\<rparr>,
      sc_n = [Complex 1.5 0], center = [1, 0, 0]\<rparr> (Scalar 5) None None
     = Inr \<lparr>indicators = \<lparr>ind_functions = [\<lambda>(x, y, z). x \<le> 2],
                            bound = [(-2, 2), (0, 0), (0, 0)]\<rparr>,
            sc_n = [Complex 1.5 0], center = [6, 5, 5]\<rparr>"
  by (simp add: translated_def is_none_def np_add_def)

section \<open>Properties of find\_bounds\<close>

lemma expand_while_go: "test v \<Longrightarrow> expand_while test f v = expand_while test f (v * f)"
  by (subst expand_while.simps) simp

lemma expand_while_stop: "\<not> test v \<Longrightarrow> expand_while test f v = Some v"
  by (subst expand_while.simps) simp

lemma expand_while_closed:
  "\<not> test (v * f ^ k) \<Longrightarrow> \<forall>j < k. test (v * f ^ j) \<Longrightarrow> expand_while test f v = Some (v * f ^ k)"
proof (induction k arbitrary: v)
  case 0
  then show ?case by (simp add: expand_while_stop)
next
  case (Suc k)
  from Suc.prems(2) have t: "test v" by force
  have a: "\<not> test (v * f * f ^ k)"
    using Suc.prems(1) by (simp add: mult.assoc)
  have b: "\<forall>j < k. test (v * f * f ^ j)"
  proof (intro allI impI)
    fix j assume "j < k"
    then have "test (v * f ^ Suc j)" using Suc.prems(2) by (meson Suc_mono)
    then show "test (v * f * f ^ j)" by (simp add: mult.assoc)
  qed
  from Suc.IH [OF a b] t show ?case
    by (simp add: expand_while_go mult.assoc)
qed

lemma contract_closed:
  "it + m \<le> 10 \<Longrightarrow> \<forall>j < m. \<not> test (v / 2 ^ j) \<Longrightarrow> (it + m < 10 \<longrightarrow> test (v / 2 ^ m))
     \<Longrightarrow> contract test it v = v / 2 ^ m"
proof (induction m arbitrary: it v)
  case 0
  then show ?case by auto
next
  case (Suc m)
  from Suc.prems(2) have t: "\<not> test v" by force
  have b: "\<forall>j < m. \<not> test (v / 2 / 2 ^ j)"
  proof (intro allI impI)
    fix j assume "j < m"
    then have "\<not> test (v / 2 ^ Suc j)" using Suc.prems(2) by (meson Suc_mono)
    then show "\<not> test (v / 2 / 2 ^ j)" by simp
  qed
  have c: "Suc it + m < 10 \<longrightarrow> test (v / 2 / 2 ^ m)"
    using Suc.prems(3) by simp
  have "contract test (Suc it) (v / 2) = v / 2 / 2 ^ m"
    using Suc.prems(1) by (intro Suc.IH [OF _ b c]) simp
  with t Suc.prems(1) show ?case by simp
qed


lemma first_failure:
  assumes "\<exists>K. \<not> test (v * f ^ K)"
  shows "\<exists>k. \<not> test (v * f ^ k) \<and> (\<forall>j < k. test (v * f ^ j))"
  using assms exists_least_iff [of "\<lambda>n. \<not> test (v * f ^ n)"] by auto

lemma first_success_within:
  "\<exists>m \<le> (10::nat). (\<forall>j < m. \<not> test (v / 2 ^ j)) \<and> (m < 10 \<longrightarrow> test (v / 2 ^ m))"
proof (cases "\<exists>j < 10. test (v / 2 ^ j)")
  case True
  then have "\<exists>j. j < 10 \<and> test (v / 2 ^ j)" by blast
  then obtain m where m: "m < 10 \<and> test (v / 2 ^ m)"
    and least: "\<forall>j < m. \<not> (j < 10 \<and> test (v / 2 ^ j))"
    using exists_least_iff [of "\<lambda>n. n < 10 \<and> test (v / 2 ^ n)"] by auto
  from m least show ?thesis
    by (intro exI [of _ m]) auto
next
  case False
  then show ?thesis
    by (intro exI [of _ 10]) auto
qed

lemma leaves_bounded_region:
  fixes v f R :: real
  assumes bounded: "\<forall>w. test w \<longrightarrow> \<bar>w\<bar> < R" and "v \<noteq> 0" and "1 < f"
  shows "\<exists>K. \<not> test (v * f ^ K)"
proof -
  from real_arch_pow [OF \<open>1 < f\<close>, of "R / \<bar>v\<bar>"] obtain n where n: "R / \<bar>v\<bar> < f ^ n"
    by blast
  with \<open>v \<noteq> 0\<close> have "R < \<bar>v\<bar> * f ^ n"
    by (simp add: divide_less_eq mult.commute)
  moreover have "\<bar>v * f ^ n\<bar> = \<bar>v\<bar> * f ^ n"
    using \<open>1 < f\<close> by (simp add: abs_mult)
  ultimately have "\<not> \<bar>v * f ^ n\<bar> < R" by simp
  with bounded show ?thesis by blast
qed

lemma search_axis_result:
  fixes seed R :: real
  assumes bounded: "\<forall>w. probe indicator i w \<longrightarrow> \<bar>w\<bar> < R" and seed: "seed \<noteq> 0"
  shows "\<exists>k m l. m \<le> 10
     \<and> search_axis indicator i seed = Some (seed * 10 ^ k / 2 ^ m * (11 / 10) ^ l)
     \<and> (\<forall>j < k. probe indicator i (seed * 10 ^ j))
     \<and> \<not> probe indicator i (seed * 10 ^ k)
     \<and> (\<forall>j < m. \<not> probe indicator i (seed * 10 ^ k / 2 ^ j))
     \<and> (m < 10 \<longrightarrow> probe indicator i (seed * 10 ^ k / 2 ^ m))
     \<and> (\<forall>j < l. probe indicator i (seed * 10 ^ k / 2 ^ m * (11 / 10) ^ j))
     \<and> \<not> probe indicator i (seed * 10 ^ k / 2 ^ m * (11 / 10) ^ l)"
proof -
  let ?t = "probe indicator i"
  from first_failure [OF leaves_bounded_region [OF bounded seed, of 10]]
  obtain k where k: "\<not> ?t (seed * 10 ^ k)" "\<forall>j < k. ?t (seed * 10 ^ j)"
    by auto
  let ?a = "seed * 10 ^ k"
  have grow: "expand_while ?t 10 seed = Some ?a"
    by (rule expand_while_closed [OF k])
  from first_success_within [of ?t ?a]
  obtain m where m: "m \<le> 10" "\<forall>j < m. \<not> ?t (?a / 2 ^ j)" "m < 10 \<longrightarrow> ?t (?a / 2 ^ m)"
    by auto
  let ?b = "?a / 2 ^ m"
  have shrink: "contract ?t 0 ?a = ?b"
    using m by (intro contract_closed) auto
  have "?b \<noteq> 0" using seed by simp
  from first_failure [OF leaves_bounded_region [OF bounded this, of "11 / 10"]]
  obtain l where l: "\<not> ?t (?b * (11 / 10) ^ l)" "\<forall>j < l. ?t (?b * (11 / 10) ^ j)"
    by auto
  have regrow: "expand_while ?t (11 / 10) ?b = Some (?b * (11 / 10) ^ l)"
    by (rule expand_while_closed [OF l])
  have "search_axis indicator i seed = Some (?b * (11 / 10) ^ l)"
    by (simp only: search_axis_def grow shrink regrow option.case)
  with k m l show ?thesis by blast
qed


lemma probe_bounded:
  assumes "\<forall>x y z. indicator (x, y, z) \<longrightarrow> \<bar>x\<bar> < R \<and> \<bar>y\<bar> < R \<and> \<bar>z\<bar> < R"
  shows "\<forall>w. probe indicator i w \<longrightarrow> \<bar>w\<bar> < R"
proof (intro allI impI)
  fix w assume "probe indicator i w"
  with assms show "\<bar>w\<bar> < R"
    by (auto simp: probe_def axis_point_def split: if_splits)
qed

lemma bounds_rows_all:
  assumes "\<forall>i \<in> set axes. \<exists>lo hi. search i (- (1 / 10 ^ 9)) = Some lo \<and> search i (1 / 10 ^ 9) = Some hi"
  shows "bounds_rows search axes
       = Some (map (\<lambda>i. [the (search i (- (1 / 10 ^ 9))), the (search i (1 / 10 ^ 9))]) axes)"
  using assms by (induction axes) auto

text \<open>
  C9 (as amended). For an indicator that is false outside a bounded region,
  \<open>find_bounds\<close> returns three rows of two bounds. The bound of axis \<open>i\<close> in either
  direction starts from the seed \<open>-1e-9\<close> or \<open>1e-9\<close> on that axis (the other axes at 0),
  is multiplied by 10 as long as the indicator is true at the probed point (\<open>k\<close> times),
  then halved as long as the indicator is false, at most 10 times (\<open>m\<close> times), then
  multiplied by 1.1 as long as the indicator is true (\<open>l\<close> times).
\<close>

theorem find_bounds_search:
  assumes "\<forall>x y z. indicator (x, y, z) \<longrightarrow> \<bar>x\<bar> < R \<and> \<bar>y\<bar> < R \<and> \<bar>z\<bar> < R"
  shows "\<exists>bounds. find_bounds indicator = Some bounds \<and> length bounds = 3
     \<and> (\<forall>i < 3. length (bounds ! i) = 2
          \<and> (\<forall>seed. (seed = - (1 / 10 ^ 9) \<or> seed = 1 / 10 ^ 9) \<longrightarrow>
               (\<exists>k m l. m \<le> 10
                 \<and> bounds ! i ! (if seed < 0 then 0 else 1) = seed * 10 ^ k / 2 ^ m * (11 / 10) ^ l
                 \<and> (\<forall>j < k. probe indicator i (seed * 10 ^ j))
                 \<and> \<not> probe indicator i (seed * 10 ^ k)
                 \<and> (\<forall>j < m. \<not> probe indicator i (seed * 10 ^ k / 2 ^ j))
                 \<and> (m < 10 \<longrightarrow> probe indicator i (seed * 10 ^ k / 2 ^ m))
                 \<and> (\<forall>j < l. probe indicator i (seed * 10 ^ k / 2 ^ m * (11 / 10) ^ j))
                 \<and> \<not> probe indicator i (seed * 10 ^ k / 2 ^ m * (11 / 10) ^ l))))"
proof -
  let ?lo = "- (1 / 10 ^ 9) :: real" and ?hi = "1 / 10 ^ 9 :: real"
  let ?row = "\<lambda>i. [the (search_axis indicator i ?lo), the (search_axis indicator i ?hi)]"
  have res: "\<exists>k m l. m \<le> 10
     \<and> search_axis indicator i seed = Some (seed * 10 ^ k / 2 ^ m * (11 / 10) ^ l)
     \<and> (\<forall>j < k. probe indicator i (seed * 10 ^ j))
     \<and> \<not> probe indicator i (seed * 10 ^ k)
     \<and> (\<forall>j < m. \<not> probe indicator i (seed * 10 ^ k / 2 ^ j))
     \<and> (m < 10 \<longrightarrow> probe indicator i (seed * 10 ^ k / 2 ^ m))
     \<and> (\<forall>j < l. probe indicator i (seed * 10 ^ k / 2 ^ m * (11 / 10) ^ j))
     \<and> \<not> probe indicator i (seed * 10 ^ k / 2 ^ m * (11 / 10) ^ l)"
    if "seed = ?lo \<or> seed = ?hi" for i seed
  proof -
    from that have "seed \<noteq> 0" by auto
    from search_axis_result [OF probe_bounded [OF assms] this] show ?thesis .
  qed
  have some: "\<exists>lo hi. search_axis indicator i ?lo = Some lo \<and> search_axis indicator i ?hi = Some hi"
    for i
    using res [of ?lo i] res [of ?hi i] by auto
  have fb: "find_bounds indicator = Some (map ?row [0, 1, 2])"
    unfolding find_bounds_def by (rule bounds_rows_all) (use some in blast)
  have row: "map ?row [0, 1, 2] ! i = ?row i" if "i < 3" for i
  proof -
    from that have "i = 0 \<or> i = 1 \<or> i = 2" by arith
    then show ?thesis by (auto simp: numeral_2_eq_2)
  qed
  have entry: "\<exists>k m l. m \<le> 10
     \<and> map ?row [0, 1, 2] ! i ! (if seed < 0 then 0 else 1) = seed * 10 ^ k / 2 ^ m * (11 / 10) ^ l
     \<and> (\<forall>j < k. probe indicator i (seed * 10 ^ j))
     \<and> \<not> probe indicator i (seed * 10 ^ k)
     \<and> (\<forall>j < m. \<not> probe indicator i (seed * 10 ^ k / 2 ^ j))
     \<and> (m < 10 \<longrightarrow> probe indicator i (seed * 10 ^ k / 2 ^ m))
     \<and> (\<forall>j < l. probe indicator i (seed * 10 ^ k / 2 ^ m * (11 / 10) ^ j))
     \<and> \<not> probe indicator i (seed * 10 ^ k / 2 ^ m * (11 / 10) ^ l)"
    if i: "i < 3" and s: "seed = ?lo \<or> seed = ?hi" for i seed
  proof -
    from res [OF s, of i] obtain k m l where
      r: "m \<le> 10" "search_axis indicator i seed = Some (seed * 10 ^ k / 2 ^ m * (11 / 10) ^ l)"
       "\<forall>j < k. probe indicator i (seed * 10 ^ j)"
       "\<not> probe indicator i (seed * 10 ^ k)"
       "\<forall>j < m. \<not> probe indicator i (seed * 10 ^ k / 2 ^ j)"
       "m < 10 \<longrightarrow> probe indicator i (seed * 10 ^ k / 2 ^ m)"
       "\<forall>j < l. probe indicator i (seed * 10 ^ k / 2 ^ m * (11 / 10) ^ j)"
       "\<not> probe indicator i (seed * 10 ^ k / 2 ^ m * (11 / 10) ^ l)"
      by blast
    have "?row i ! (if seed < 0 then 0 else 1) = the (search_axis indicator i seed)"
      using s by (elim disjE; hypsubst; simp)
    then have "map ?row [0, 1, 2] ! i ! (if seed < 0 then 0 else 1) = the (search_axis indicator i seed)"
      by (simp only: row [OF i])
    with r(2) have "map ?row [0, 1, 2] ! i ! (if seed < 0 then 0 else 1)
        = seed * 10 ^ k / 2 ^ m * (11 / 10) ^ l"
      by simp
    with r show ?thesis by blast
  qed
  have len: "length (map ?row [0, 1, 2] ! i) = 2" if "i < 3" for i
    by (simp only: row [OF that]) simp
  from fb entry len show ?thesis
    by (intro exI [of _ "map ?row [0, 1, 2]"]) simp
qed

theorem find_bounds_search_witness:
  "find_bounds (\<lambda>(x, y, z). \<bar>x\<bar> \<le> 5 / 10 ^ 9 \<and> \<bar>y\<bar> \<le> 5 / 10 ^ 9 \<and> \<bar>z\<bar> \<le> 5 / 10 ^ 9)
     = Some [[- (11 / (2 * 10 ^ 9)), 11 / (2 * 10 ^ 9)],
            [- (11 / (2 * 10 ^ 9)), 11 / (2 * 10 ^ 9)],
            [- (11 / (2 * 10 ^ 9)), 11 / (2 * 10 ^ 9)]]"
proof -
  have h: "\<forall>x y z. (\<lambda>(x :: real, y :: real, z :: real). \<bar>x\<bar> \<le> 5 / 10 ^ 9 \<and> \<bar>y\<bar> \<le> 5 / 10 ^ 9 \<and> \<bar>z\<bar> \<le> 5 / 10 ^ 9) (x, y, z) \<longrightarrow> \<bar>x\<bar> < 1 \<and> \<bar>y\<bar> < 1 \<and> \<bar>z\<bar> < 1"
    by simp
  from find_bounds_search [OF h] obtain bounds where
    "find_bounds (\<lambda>(x, y, z). \<bar>x\<bar> \<le> 5 / 10 ^ 9 \<and> \<bar>y\<bar> \<le> 5 / 10 ^ 9 \<and> \<bar>z\<bar> \<le> 5 / 10 ^ 9) = Some bounds"
    by blast
  moreover have "find_bounds (\<lambda>(x, y, z). \<bar>x\<bar> \<le> 5 / 10 ^ 9 \<and> \<bar>y\<bar> \<le> 5 / 10 ^ 9 \<and> \<bar>z\<bar> \<le> 5 / 10 ^ 9)
     = Some [[- (11 / (2 * 10 ^ 9)), 11 / (2 * 10 ^ 9)],
            [- (11 / (2 * 10 ^ 9)), 11 / (2 * 10 ^ 9)],
            [- (11 / (2 * 10 ^ 9)), 11 / (2 * 10 ^ 9)]]"
    by (simp add: find_bounds_def search_axis_def probe_def axis_point_def
          expand_while_go expand_while_stop)
  ultimately show ?thesis by simp
qed

text \<open>
  C9 as stated fails: on the cube of half-width \<open>5e-9\<close> the code, which multiplies by 10,
  returns \<open>5.5e-9\<close> for every bound, and the search that doubles returns \<open>5.324e-9\<close>.
\<close>

theorem find_bounds_search_counterexample:
  "find_bounds (\<lambda>(x, y, z). \<bar>x\<bar> \<le> 5 / 10 ^ 9 \<and> \<bar>y\<bar> \<le> 5 / 10 ^ 9 \<and> \<bar>z\<bar> \<le> 5 / 10 ^ 9)
     = Some [[- (11 / (2 * 10 ^ 9)), 11 / (2 * 10 ^ 9)],
            [- (11 / (2 * 10 ^ 9)), 11 / (2 * 10 ^ 9)],
            [- (11 / (2 * 10 ^ 9)), 11 / (2 * 10 ^ 9)]]
   \<and> find_bounds_doubling (\<lambda>(x, y, z). \<bar>x\<bar> \<le> 5 / 10 ^ 9 \<and> \<bar>y\<bar> \<le> 5 / 10 ^ 9 \<and> \<bar>z\<bar> \<le> 5 / 10 ^ 9)
     = Some [[- (1331 / (250 * 10 ^ 9)), 1331 / (250 * 10 ^ 9)],
            [- (1331 / (250 * 10 ^ 9)), 1331 / (250 * 10 ^ 9)],
            [- (1331 / (250 * 10 ^ 9)), 1331 / (250 * 10 ^ 9)]]
   \<and> find_bounds (\<lambda>(x, y, z). \<bar>x\<bar> \<le> 5 / 10 ^ 9 \<and> \<bar>y\<bar> \<le> 5 / 10 ^ 9 \<and> \<bar>z\<bar> \<le> 5 / 10 ^ 9)
     \<noteq> find_bounds_doubling (\<lambda>(x, y, z). \<bar>x\<bar> \<le> 5 / 10 ^ 9 \<and> \<bar>y\<bar> \<le> 5 / 10 ^ 9 \<and> \<bar>z\<bar> \<le> 5 / 10 ^ 9)"
  by (simp add: find_bounds_def find_bounds_doubling_def search_axis_def search_axis_doubling_def
        probe_def axis_point_def expand_while_go expand_while_stop)

section \<open>Properties of the scatterer parameters\<close>

text \<open>
  C3, at the failing input \<open>CenteredScatterer(center=(1, 2, 3))\<close>. Flattening gives the
  keys \<open>center.0\<close>, \<open>center.1\<close>, \<open>center.2\<close> and unflattening gives back the dictionary
  \<open>{'center': [1, 2, 3]}\<close>, but \<open>from_parameters\<close> hands that dictionary to the
  constructor as the center, and a dictionary of one key is refused: the round trip raises
  \<open>InvalidScatterer\<close> instead of rebuilding the scatterer.
\<close>

theorem from_parameters_round_trip_fails:
  "CenteredScatterer (Some (Seq [Real 1, Real 2, Real 3]))
     = Inr \<lparr>cs_center = Some (Seq [Real 1, Real 2, Real 3])\<rparr>
   \<and> parameters \<lparr>cs_center = Some (Seq [Real 1, Real 2, Real 3])\<rparr>
     = [(''center.0'', Real 1), (''center.1'', Real 2), (''center.2'', Real 3)]
   \<and> extract_pars [(''center.0'', Real 1), (''center.1'', Real 2), (''center.2'', Real 3)]
     = Inr [(''center'', Seq [Real 1, Real 2, Real 3])]
   \<and> from_parameters \<lparr>cs_center = Some (Seq [Real 1, Real 2, Real 3])\<rparr>
       (parameters \<lparr>cs_center = Some (Seq [Real 1, Real 2, Real 3])\<rparr>)
     = Inl InvalidScatterer"
proof -
  have c: "CenteredScatterer (Some (Seq [Real 1, Real 2, Real 3]))
     = Inr \<lparr>cs_center = Some (Seq [Real 1, Real 2, Real 3])\<rparr>"
    by (simp add: CenteredScatterer_def)
  have p: "parameters \<lparr>cs_center = Some (Seq [Real 1, Real 2, Real 3])\<rparr>
     = [(''center.0'', Real 1), (''center.1'', Real 2), (''center.2'', Real 3)]"
    by (simp add: parameters_def obj_dict_def expand_parameters_def dict_def digit_char_def)
  have e: "extract_pars [(''center.0'', Real 1), (''center.1'', Real 2), (''center.2'', Real 3)]
     = Inr [(''center'', Seq [Real 1, Real 2, Real 3])]"
    by (simp add: extract_pars_def subkeys_of_def split_key_def digit_char_def upt_rec)
  have f: "from_parameters \<lparr>cs_center = Some (Seq [Real 1, Real 2, Real 3])\<rparr>
       (parameters \<lparr>cs_center = Some (Seq [Real 1, Real 2, Real 3])\<rparr>)
     = Inl InvalidScatterer"
    by (simp add: from_parameters_def p e CenteredScatterer_def)
  from c p e f show ?thesis by simp
qed

text \<open>
  The unflattening is not an inverse of the flattening either when one attribute name is
  the start of another: with the sequences \<open>r\<close> and \<open>rotation\<close>, the keys of
  \<open>rotation\<close> are collected for \<open>r\<close> too (\<open>key.startswith(subkey)\<close>) and the last of
  them leaves \<open>o\<close> as the delimiter.
\<close>

lemma extract_pars_prefix_clash:
  "dict (expand_parameters [(''r'', Seq [Real 1, Real 2]), (''rotation'', Seq [Real 3])])
     = [(''r.0'', Real 1), (''r.1'', Real 2), (''rotation.0'', Real 3)]
   \<and> extract_pars [(''r.0'', Real 1), (''r.1'', Real 2), (''rotation.0'', Real 3)]
     = Inl InvalidScatterer"
  by (simp add: expand_parameters_def dict_def extract_pars_def subkeys_of_def split_key_def
        digit_char_def upt_rec)

text \<open>
  The loop of \<open>extract_pars\<close> adds at most one entry per subkey, and every key that the
  flattening makes for the attribute \<open>center\<close> starts with \<open>center\<close>, followed by nothing
  or by a delimiter.
\<close>

lemma length_update_le: "length (AList.update k v al) \<le> Suc (length al)"
  by (induction al) auto

lemma extract_loop_length:
  "extract_loop raw sks d out = Inr out' \<Longrightarrow> length out' \<le> length out + length sks"
proof (induction sks arbitrary: d out)
  case Nil
  then show ?case by simp
next
  case (Cons subkey rest)
  from Cons.prems obtain d' v where
    "extract_loop raw rest d' (AList.update subkey v out) = Inr out'"
    by (auto split: option.splits sum.splits if_splits prod.splits)
  from Cons.IH [OF this] length_update_le [of subkey v out] show ?case by simp
qed

lemma takeWhile_twice:
  "takeWhile P (takeWhile Q xs) = takeWhile (\<lambda>x. P x \<and> Q x) xs"
  by (induction xs) auto

lemma split_key_center:
  "k = ''center'' \<or> (\<exists>c rest. k = ''center'' @ c # rest \<and> (c = CHR ''.'' \<or> c = CHR ''_''))
     \<Longrightarrow> split_key k = ''center''"
  by (auto simp: split_key_def takeWhile_twice)

lemma expand_keys:
  "\<forall>k \<in> fst ` set (expand_parameter key par).
      k = key \<or> (\<exists>c rest. k = key @ c # rest \<and> (c = CHR ''.'' \<or> c = CHR ''_''))"
  "\<forall>k \<in> fst ` set (expand_enumerated basekey i pars). \<exists>rest. k = basekey @ rest"
  "\<forall>k \<in> fst ` set (expand_items basekey pairs). \<exists>rest. k = basekey @ rest"
proof (induction key par and basekey i pars and basekey pairs
        rule: expand_parameter_expand_enumerated_expand_items.induct)
  case (3 key xs)
  then show ?case by (auto simp: image_iff)
next
  case (4 key kvs)
  then show ?case by (auto simp: image_iff)
next
  case (6 basekey i par pars)
  then show ?case by (fastforce simp: image_iff)
next
  case (8 basekey subkey par pairs)
  then show ?case by (fastforce simp: image_iff)
qed auto


lemma dict_keys: "fst ` set (dict pairs) = fst ` set pairs"
proof -
  have "fst ` set (foldl (\<lambda>d (k, v). AList.update k v d) d0 pairs) = fst ` set d0 \<union> fst ` set pairs"
    for d0 :: "('a \<times> 'b) list"
  proof (induction pairs arbitrary: d0)
    case Nil
    show ?case by simp
  next
    case (Cons kv pairs)
    obtain k v where kv: "kv = (k, v)" by (cases kv)
    have "fst ` set (AList.update k v d0) = {k} \<union> fst ` set d0"
      by (rule dom_update)
    then show ?case
      by (simp add: kv Cons.IH Un_commute Un_left_commute insert_commute)
  qed
  from this [of "[]"] show ?thesis by (simp add: dict_def)
qed

lemma parameters_keys:
  assumes "k \<in> fst ` set (parameters self)"
  shows "split_key k = ''center''"
proof (cases "cs_center self")
  case None
  with assms show ?thesis
    by (simp add: parameters_def dict_keys obj_dict_def expand_parameters_def)
next
  case (Some c)
  with assms have "k \<in> fst ` set (expand_parameter ''center'' c)"
    by (simp add: parameters_def dict_keys obj_dict_def expand_parameters_def)
  with expand_keys(1) [of "''center''" c] show ?thesis
    by (intro split_key_center) blast
qed

lemma subkeys_of_short:
  assumes "\<forall>k \<in> fst ` set raw. split_key k = sk"
  shows "length (subkeys_of raw) \<le> 1"
proof -
  have "set (subkeys_of raw) \<subseteq> {sk}"
    using assms by (auto simp: subkeys_of_def)
  then have "card (set (subkeys_of raw)) \<le> card {sk}"
    by (intro card_mono) auto
  moreover have "distinct (subkeys_of raw)"
    by (simp add: subkeys_of_def)
  ultimately show ?thesis
    by (simp add: distinct_card)
qed

text \<open>
  The round trip fails for every \<open>CenteredScatterer\<close> and whatever parameters are given:
  all flat keys start with \<open>center\<close>, so the unflattened dictionary has at most one key
  and the constructor, which gets it as the center, refuses it.
\<close>

lemma from_parameters_never_rebuilds:
  "\<exists>e. from_parameters self given = Inl e"
proof -
  let ?all = "map (\<lambda>(key, val). case map_of given key of
                                   Some new \<Rightarrow> (key, new)
                                 | None \<Rightarrow> (key, val)) (parameters self)"
  have keys: "fst ` set ?all = fst ` set (parameters self)"
    by (force split: option.splits simp: image_iff)
  have short: "length (subkeys_of ?all) \<le> 1"
    by (rule subkeys_of_short [where sk = "''center''"]) (simp only: keys parameters_keys ball_triv, blast intro: parameters_keys)
  show ?thesis
  proof (cases "extract_pars ?all")
    case (Inl e)
    then show ?thesis by (simp add: from_parameters_def)
  next
    case (Inr d)
    then have "length d \<le> length (subkeys_of ?all)"
      using extract_loop_length [of ?all "subkeys_of ?all" None "[]" d]
      by (simp add: extract_pars_def)
    with short have "length d \<noteq> 3" by simp
    with Inr show ?thesis
      by (simp add: from_parameters_def CenteredScatterer_def)
  qed
qed

end
